theory Spec2Isabelle
  imports Complex_Main
begin

section \<open>Geoportal: ingestion of an uploaded geospatial file (geoportal.py)\<close>

text \<open>
  The program is one Streamlit script with two functions, \<open>load_data\<close> and
  \<open>create_map\<close>. Both call into the operating system and into geopandas, pyproj and
  folium. Everything those calls can do that the script reacts to is an explicit value
  here: the outcome of each external call of the \<open>try\<close> body is a field of an
  environment record, what the two deletions of the \<open>finally\<close> block do is a second
  record, the scratch storage is a map from paths to file-system objects, and every
  effect the script performs (creating and removing scratch storage, \<open>st.error\<close>,
  \<open>st.warning\<close>) is appended to an event list in the order the script performs it.
  Exceptions are those of class \<open>Exception\<close>, which is what the script catches.
\<close>

subsection \<open>Values\<close>

type_synonym path = string

text \<open>An exception object of class \<open>Exception\<close> (or a subclass), with its message.\<close>

datatype exn = Exception string

text \<open>What a statement of a function body does: fall through, return, or raise.\<close>

datatype ('a, 'r) step = Continue 'a | Returns 'r | Raises exn

text \<open>What a call does: return a value or let an exception escape.\<close>

datatype 'r outcome = Return 'r | Raise exn

text \<open>
  A directory listing as \<open>os.scandir\<close> yields it: the entries of one directory, in
  the order the file system returns them.
\<close>

datatype entry = File string | Dir string "entry list"

text \<open>A scratch object: a file with its bytes, or a directory with its listing.\<close>

datatype fsobj = RegularFile "nat list" | Directory "entry list"

datatype crs = EPSG nat | WKT string

type_synonym coord = "real \<times> real"

datatype cell = Scalar string | Geom "coord list" | Null

text \<open>
  What the attribute \<open>crs\<close> of a frame is: a plain \<open>DataFrame\<close>, which
  \<open>gpd.read_file\<close> returns for a file without geometry, has no such attribute; a
  \<open>GeoDataFrame\<close> has it, holding \<open>None\<close> or a reference system.
\<close>

datatype crs_attr = NoAttribute | Unlabelled | Labelled crs

text \<open>
  The frame \<open>gpd.read_file\<close> returns: the column labels, one row of cells per
  feature (a cell per column), and its \<open>crs\<close> attribute.
\<close>

record gdf =
  columns :: "string list"
  rows :: "cell list list"
  crs_attr :: crs_attr

text \<open>The reference system a frame declares, if it declares one.\<close>

definition crs :: "gdf \<Rightarrow> crs option" where
  "crs g = (case crs_attr g of Labelled c \<Rightarrow> Some c | _ \<Rightarrow> None)"

text \<open>The four \<open>st.error\<close> texts of \<open>load_data\<close> and the \<open>st.warning\<close> of \<open>create_map\<close>.\<close>

datatype message =
    ZipNotExtractable exn
  | ZipNoShp
  | NoGeometryColumn
  | LoadFailed exn
  | LayerNotAdded exn

datatype event =
    Created path
  | MadeDir path
  | Removed path
  | RemovedTree path
  | StError message
  | StWarning message

record world =
  fs :: "path \<rightharpoonup> fsobj"
  events :: "event list"

record upload =
  name :: string
  buffer :: "nat list"

text \<open>
  The outcomes of the external calls of one invocation of \<open>load_data\<close>:
  \<^item> \<open>tmp_create\<close>: the exception of \<open>tempfile.NamedTemporaryFile\<close>, if it raises
    (then no file is created);
  \<^item> \<open>tmp_stem\<close>: the fresh path it chooses, without the suffix;
  \<^item> \<open>tmp_write\<close>: what goes wrong with writing the upload, if anything: either
    \<open>uploaded_file.getbuffer()\<close> raises, or the device refuses the bytes (no space
    left, say);
  \<^item> \<open>io_buffer_size\<close>: the size of the buffer of the file object (8192 by default):
    fewer bytes than that stay in the buffer until the file is closed;
  \<^item> \<open>mkdtemp\<close>: the fresh directory of \<open>tempfile.mkdtemp\<close>, or its exception;
  \<^item> \<open>extractall\<close>: the tree that \<open>ZipFile.extractall\<close> leaves in the directory, and
    the exception it raised, if any;
  \<^item> \<open>read_file\<close>: what \<open>gpd.read_file\<close> does on a path with a driver argument;
  \<^item> \<open>transformer\<close>: the pyproj transformation between two reference systems, or the
    exception of building it.
\<close>

datatype write_fault = GetbufferFault exn | DeviceFault exn

record env =
  tmp_create :: "exn option"
  tmp_stem :: path
  tmp_write :: "write_fault option"
  io_buffer_size :: nat
  mkdtemp :: "exn + path"
  extractall :: "entry list \<times> exn option"
  read_file :: "path \<Rightarrow> string option \<Rightarrow> exn + gdf"
  transformer :: "crs \<Rightarrow> crs \<Rightarrow> exn + (coord \<Rightarrow> coord)"

record locals =
  tmp_path :: "path option"
  extract_dir :: "path option"

text \<open>
  What the two deletions of the \<open>finally\<close> block do: the exception \<open>os.remove\<close>
  raises, if any (the file is then still there), and whether \<open>shutil.rmtree\<close>, which
  is called with \<open>ignore_errors=True\<close> and so never raises, deletes the directory.
\<close>

record deletion =
  os_remove :: "exn option"
  rmtree_deletes :: bool

subsection \<open>Strings and paths\<close>

text \<open>
  A \<open>char\<close> is a code point below 256. \<open>str.lower\<close> on those: the letters A to Z and
  the capitals from U+00C0 to U+00DE, the multiplication sign U+00D7 among them left
  out, move up by 32; every other code point below 256 is its own lower case.
\<close>

definition lower_char :: "char \<Rightarrow> char" where
  "lower_char c =
     (let n = (of_char c :: nat)
      in if (65 \<le> n \<and> n \<le> 90) \<or> (192 \<le> n \<and> n \<le> 222 \<and> n \<noteq> 215)
         then char_of (n + 32) else c)"

definition lower :: "string \<Rightarrow> string" where
  "lower s = map lower_char s"

definition endswith :: "string \<Rightarrow> string \<Rightarrow> bool" where
  "endswith s t = (take (length t) (rev s) = rev t)"

text \<open>\<open>str.rfind\<close> of one character: the last index holding it, or \<open>-1\<close>.\<close>

definition rfind :: "string \<Rightarrow> char \<Rightarrow> int" where
  "rfind s c =
     (case filter (\<lambda>i. s ! i = c) (rev [0..<length s]) of
        [] \<Rightarrow> - 1
      | i # _ \<Rightarrow> int i)"

text \<open>
  \<open>os.path.splitext\<close> (posixpath): the extension starts at the last dot after the
  last separator, unless only dots stand between the separator and that dot.
\<close>

definition splitext :: "string \<Rightarrow> string \<times> string" where
  "splitext p =
     (let sepIndex = rfind p (CHR ''/'');
          dotIndex = rfind p (CHR ''.'')
      in if dotIndex > sepIndex
            \<and> list_ex (\<lambda>k. p ! k \<noteq> CHR ''.'') [nat (sepIndex + 1)..<nat dotIndex]
         then (take (nat dotIndex) p, drop (nat dotIndex) p)
         else (p, []))"

definition path_join :: "path \<Rightarrow> string \<Rightarrow> path" where
  "path_join dirpath file = dirpath @ ''/'' @ file"

subsection \<open>\<open>os.walk\<close> and the search for \<open>.shp\<close> files (lines 87 to 91)\<close>

definition dirnames :: "entry list \<Rightarrow> string list" where
  "dirnames es = concat (map (\<lambda>e. case e of Dir n _ \<Rightarrow> [n] | File _ \<Rightarrow> []) es)"

definition filenames :: "entry list \<Rightarrow> string list" where
  "filenames es = concat (map (\<lambda>e. case e of File n \<Rightarrow> [n] | Dir _ _ \<Rightarrow> []) es)"

text \<open>
  Top-down \<open>os.walk\<close>: the triple of the directory itself, then the walk of each
  subdirectory, in the order of the listing. Nothing is sorted.
\<close>

fun walk :: "path \<Rightarrow> entry list \<Rightarrow> (path \<times> string list \<times> string list) list"
  and walk_dirs :: "path \<Rightarrow> entry list \<Rightarrow> (path \<times> string list \<times> string list) list" where
  "walk d es = (d, dirnames es, filenames es) # walk_dirs d es"
| "walk_dirs d [] = []"
| "walk_dirs d (File n # es) = walk_dirs d es"
| "walk_dirs d (Dir n sub # es) = walk (path_join d n) sub @ walk_dirs d es"

definition os_walk :: "world \<Rightarrow> path \<Rightarrow> (path \<times> string list \<times> string list) list" where
  "os_walk w d = (case fs w d of Some (Directory es) \<Rightarrow> walk d es | _ \<Rightarrow> [])"

definition shp_files :: "(path \<times> string list \<times> string list) list \<Rightarrow> path list" where
  "shp_files triples =
     concat (map (\<lambda>(dirpath, _, files).
       map (path_join dirpath) (filter (\<lambda>file. endswith (lower file) ''.shp'') files)) triples)"

text \<open>
  Whether some file at any depth of a listing has a name that ends in \<open>.shp\<close>, by the
  test of line 90.
\<close>

fun has_shp :: "entry \<Rightarrow> bool"
  and has_shp_list :: "entry list \<Rightarrow> bool" where
  "has_shp (File n) = endswith (lower n) ''.shp''"
| "has_shp (Dir n sub) = has_shp_list sub"
| "has_shp_list [] = False"
| "has_shp_list (e # es) = (has_shp e \<or> has_shp_list es)"

subsection \<open>The geopandas operations used\<close>

text \<open>\<open>DataFrame.empty\<close>: some axis has length zero.\<close>

definition gdf_empty :: "gdf \<Rightarrow> bool" where
  "gdf_empty g = (rows g = [] \<or> columns g = [])"

text \<open>Reading \<open>gdf.crs\<close>: a plain \<open>DataFrame\<close> raises \<open>AttributeError\<close>.\<close>

definition getattr_crs :: "gdf \<Rightarrow> exn + crs option" where
  "getattr_crs g =
     (case crs_attr g of
        NoAttribute \<Rightarrow> Inl (Exception ''AttributeError: DataFrame object has no attribute crs'')
      | Unlabelled \<Rightarrow> Inr None
      | Labelled c \<Rightarrow> Inr (Some c))"

text \<open>
  \<open>set_crs\<close> labels the frame and leaves every cell as it is; it refuses to replace a
  different label (no \<open>allow_override\<close> is passed).
\<close>

definition set_crs :: "gdf \<Rightarrow> crs \<Rightarrow> exn + gdf" where
  "set_crs g c =
     (case crs_attr g of
        NoAttribute \<Rightarrow> Inl (Exception ''AttributeError: DataFrame object has no attribute set_crs'')
      | Unlabelled \<Rightarrow> Inr (g\<lparr>crs_attr := Labelled c\<rparr>)
      | Labelled c0 \<Rightarrow>
          if c0 = c then Inr g
          else Inl (Exception ''The GeoSeries already has a CRS which is not equal to the passed CRS.''))"

fun transform_cell :: "(coord \<Rightarrow> coord) \<Rightarrow> cell \<Rightarrow> cell" where
  "transform_cell f (Geom cs) = Geom (map f cs)"
| "transform_cell f c = c"

fun transform_row :: "(coord \<Rightarrow> coord) \<Rightarrow> string list \<Rightarrow> cell list \<Rightarrow> cell list" where
  "transform_row f (c # cols) (v # vs) =
     (if c = ''geometry'' then transform_cell f v else v) # transform_row f cols vs"
| "transform_row f cols vs = vs"

text \<open>
  \<open>to_crs\<close>: an unlabelled frame cannot be transformed; a frame already in the target
  system is returned as it is (geopandas compares the two systems and returns the
  geometries untouched when they are the same); otherwise the coordinates of the
  geometry column go through the pyproj transformation and the frame is relabelled.
\<close>

definition to_crs :: "(crs \<Rightarrow> crs \<Rightarrow> exn + (coord \<Rightarrow> coord)) \<Rightarrow> gdf \<Rightarrow> crs \<Rightarrow> exn + gdf" where
  "to_crs tr g c =
     (case crs_attr g of
        NoAttribute \<Rightarrow> Inl (Exception ''AttributeError: DataFrame object has no attribute to_crs'')
      | Unlabelled \<Rightarrow>
          Inl (Exception ''Cannot transform naive geometries.  Please set a crs on the object first.'')
      | Labelled c0 \<Rightarrow>
          if c0 = c then Inr g
          else (case tr c0 c of
                  Inl e \<Rightarrow> Inl e
                | Inr f \<Rightarrow>
                    Inr (g\<lparr>rows := map (transform_row f (columns g)) (rows g),
                          crs_attr := Labelled c\<rparr>)))"

subsection \<open>\<open>load_data\<close>\<close>

text \<open>The extensions the upload widget offers (line 30).\<close>

definition uploader_types :: "string list" where
  "uploader_types = [''geojson'', ''kml'', ''gpkg'', ''zip'']"

definition recognized :: "string \<Rightarrow> bool" where
  "recognized suffix = (suffix \<in> set (map (\<lambda>t. ''.'' @ t) uploader_types))"

definition suffix_of :: "upload \<Rightarrow> string" where
  "suffix_of up = lower (snd (splitext (name up)))"

text \<open>
  Where a fault of the write surfaces. \<open>getbuffer()\<close> raises on line 71. Bytes the
  device refuses raise inside \<open>tmp.write\<close> on line 71 when they do not fit the buffer
  of the file object; when they fit, \<open>tmp.write\<close> returns, line 72 runs, and the
  exception is raised when the \<open>with\<close> block closes the file. An empty upload
  writes nothing.
\<close>

datatype write_outcome = WriteOk | WriteRaises exn | CloseRaises exn

definition tmp_write_outcome :: "env \<Rightarrow> upload \<Rightarrow> write_outcome" where
  "tmp_write_outcome env up =
     (case tmp_write env of
        None \<Rightarrow> WriteOk
      | Some (GetbufferFault e) \<Rightarrow> WriteRaises e
      | Some (DeviceFault e) \<Rightarrow>
          if buffer up = [] then WriteOk
          else if length (buffer up) < io_buffer_size env then CloseRaises e
          else WriteRaises e)"

text \<open>
  Lines 70 to 72. \<open>NamedTemporaryFile(delete=False)\<close> creates the file; the name
  reaches \<open>tmp_path\<close> on line 72, only after the write of line 71 has returned. The
  result is the path, or the exception that leaves the \<open>with\<close> statement together
  with \<open>tmp_path\<close> as it then stands.
\<close>

datatype scratch_result = Written path | Failed exn "path option"

definition write_scratch :: "env \<Rightarrow> upload \<Rightarrow> string \<Rightarrow> world \<Rightarrow> scratch_result \<times> world" where
  "write_scratch env up suffix w =
     (case tmp_create env of
        Some e \<Rightarrow> (Failed e None, w)
      | None \<Rightarrow>
          let p = tmp_stem env @ suffix;
              w1 = w\<lparr>fs := (fs w)(p \<mapsto> RegularFile []), events := events w @ [Created p]\<rparr>
          in (case tmp_write_outcome env up of
                WriteRaises e \<Rightarrow> (Failed e None, w1)
              | CloseRaises e \<Rightarrow> (Failed e (Some p), w1)
              | WriteOk \<Rightarrow> (Written p, w1\<lparr>fs := (fs w1)(p \<mapsto> RegularFile (buffer up))\<rparr>)))"

text \<open>Lines 76 to 101: the archive case. The second component is \<open>extract_dir\<close>.\<close>

definition read_zip :: "env \<Rightarrow> world \<Rightarrow> (gdf, gdf option) step \<times> path option \<times> world" where
  "read_zip env w =
     (case mkdtemp env of
        Inl e \<Rightarrow> (Raises e, None, w)
      | Inr d \<Rightarrow>
          let w1 = w\<lparr>fs := (fs w)(d \<mapsto> Directory []), events := events w @ [MadeDir d]\<rparr>
          in (case extractall env of
                (es, Some e) \<Rightarrow>
                  (Returns None, Some d,
                   w1\<lparr>fs := (fs w1)(d \<mapsto> Directory es),
                      events := events w1 @ [StError (ZipNotExtractable e)]\<rparr>)
              | (es, None) \<Rightarrow>
                  let w2 = w1\<lparr>fs := (fs w1)(d \<mapsto> Directory es)\<rparr>
                  in (case shp_files (os_walk w2 d) of
                        [] \<Rightarrow> (Returns None, Some d, w2\<lparr>events := events w2 @ [StError ZipNoShp]\<rparr>)
                      | shp_path # _ \<Rightarrow>
                          (case read_file env shp_path (Some ''ESRI Shapefile'') of
                             Inl e \<Rightarrow> (Raises e, Some d, w2)
                           | Inr g \<Rightarrow> (Continue g, Some d, w2)))))"

text \<open>Lines 69 to 105: from the upload to the frame the driver returns.\<close>

definition read_upload :: "env \<Rightarrow> upload \<Rightarrow> world \<Rightarrow> (gdf, gdf option) step \<times> locals \<times> world" where
  "read_upload env up w =
     (let suffix = suffix_of up
      in case write_scratch env up suffix w of
           (Failed e tp, w1) \<Rightarrow> (Raises e, \<lparr>tmp_path = tp, extract_dir = None\<rparr>, w1)
         | (Written p, w1) \<Rightarrow>
             if suffix = ''.zip''
             then (case read_zip env w1 of
                     (s, d, w2) \<Rightarrow> (s, \<lparr>tmp_path = Some p, extract_dir = d\<rparr>, w2))
             else (case read_file env p None of
                     Inl e \<Rightarrow> (Raises e, \<lparr>tmp_path = Some p, extract_dir = None\<rparr>, w1)
                   | Inr g \<Rightarrow> (Continue g, \<lparr>tmp_path = Some p, extract_dir = None\<rparr>, w1)))"

text \<open>Lines 108 to 118: the geometry check and the reference system.\<close>

definition normalise :: "env \<Rightarrow> gdf \<Rightarrow> world \<Rightarrow> gdf option outcome \<times> world" where
  "normalise env g w =
     (if gdf_empty g \<or> ''geometry'' \<notin> set (columns g)
      then (Return None, w\<lparr>events := events w @ [StError NoGeometryColumn]\<rparr>)
      else (case getattr_crs g of
              Inl e \<Rightarrow> (Raise e, w)
            | Inr c \<Rightarrow>
                (case (if c = None then set_crs g (EPSG 4326)
                       else to_crs (transformer env) g (EPSG 4326)) of
                   Inl e \<Rightarrow> (Raise e, w)
                 | Inr g' \<Rightarrow> (Return (Some g'), w))))"

definition try_body :: "env \<Rightarrow> upload \<Rightarrow> world \<Rightarrow> gdf option outcome \<times> locals \<times> world" where
  "try_body env up w =
     (case read_upload env up w of
        (Continue g, l, w1) \<Rightarrow> (case normalise env g w1 of (r, w2) \<Rightarrow> (r, l, w2))
      | (Returns v, l, w1) \<Rightarrow> (Return v, l, w1)
      | (Raises e, l, w1) \<Rightarrow> (Raise e, l, w1))"

text \<open>Lines 120 to 122: \<open>except Exception\<close>.\<close>

definition except_Exception :: "gdf option outcome \<Rightarrow> world \<Rightarrow> gdf option outcome \<times> world" where
  "except_Exception r w =
     (case r of
        Raise e \<Rightarrow> (Return None, w\<lparr>events := events w @ [StError (LoadFailed e)]\<rparr>)
      | Return v \<Rightarrow> (Return v, w))"

text \<open>
  Lines 126 and 127: the scratch file is removed when \<open>tmp_path\<close> holds a non-empty
  string and the path exists. \<open>os.remove\<close> is called unguarded: its exception, if it
  raises, leaves the \<open>finally\<close> block.
\<close>

definition remove_tmp :: "deletion \<Rightarrow> locals \<Rightarrow> world \<Rightarrow> exn option \<times> world" where
  "remove_tmp rm l w =
     (case tmp_path l of
        Some p \<Rightarrow>
          if p \<noteq> [] \<and> fs w p \<noteq> None
          then (case os_remove rm of
                  Some e \<Rightarrow> (Some e, w)
                | None \<Rightarrow> (None, w\<lparr>fs := (fs w)(p := None), events := events w @ [Removed p]\<rparr>))
          else (None, w)
      | None \<Rightarrow> (None, w))"

text \<open>
  Lines 128 and 129: \<open>shutil.rmtree(extract_dir, ignore_errors=True)\<close> raises nothing;
  the directory is gone when the deletion works and stays when it does not.
\<close>

definition remove_tree :: "deletion \<Rightarrow> locals \<Rightarrow> world \<Rightarrow> world" where
  "remove_tree rm l w =
     (case extract_dir l of
        Some d \<Rightarrow>
          if d \<noteq> [] \<and> fs w d \<noteq> None \<and> rmtree_deletes rm
          then w\<lparr>fs := (fs w)(d := None), events := events w @ [RemovedTree d]\<rparr>
          else w
      | None \<Rightarrow> w)"

text \<open>
  Lines 124 to 129: the \<open>finally\<close> block. An exception of line 127 ends the block, so
  that line 129 is not reached.
\<close>

definition finally_block :: "deletion \<Rightarrow> locals \<Rightarrow> world \<Rightarrow> exn option \<times> world" where
  "finally_block rm l w =
     (case remove_tmp rm l w of
        (Some e, w1) \<Rightarrow> (Some e, w1)
      | (None, w1) \<Rightarrow> (None, remove_tree rm l w1))"

text \<open>
  Lines 60 to 129, for given behaviours of the external calls and of the two deletions.
  An exception that leaves the \<open>finally\<close> block replaces the value about to be returned.
\<close>

definition load_data_with ::
  "deletion \<Rightarrow> env \<Rightarrow> upload option \<Rightarrow> world \<Rightarrow> gdf option outcome \<times> world" where
  "load_data_with rm env uploaded_file w =
     (case uploaded_file of
        None \<Rightarrow> (Return None, w)
      | Some up \<Rightarrow>
          (case try_body env up w of
             (r, l, w1) \<Rightarrow>
               (case except_Exception r w1 of
                  (r', w2) \<Rightarrow>
                    (case finally_block rm l w2 of
                       (Some e, w3) \<Rightarrow> (Raise e, w3)
                     | (None, w3) \<Rightarrow> (r', w3)))))"

text \<open>
  The two deletions doing what they are asked: \<open>os.remove\<close> does not raise and
  \<open>shutil.rmtree\<close> deletes the directory.
\<close>

definition reliable :: deletion where
  "reliable = \<lparr>os_remove = None, rmtree_deletes = True\<rparr>"

text \<open>
  \<open>load_data\<close> where the two deletions do what they are asked. What follows says of this
  function what does not depend on the deletions, and of \<open>load_data_with\<close> what does.
\<close>

definition load_data :: "env \<Rightarrow> upload option \<Rightarrow> world \<Rightarrow> gdf option outcome \<times> world" where
  "load_data env uploaded_file w = load_data_with reliable env uploaded_file w"

text \<open>The world the \<open>finally\<close> block leaves when the two deletions do what they are asked.\<close>

definition cleanup :: "locals \<Rightarrow> world \<Rightarrow> world" where
  "cleanup l w = snd (finally_block reliable l w)"

subsection \<open>\<open>create_map\<close>\<close>

definition TILE_MAP :: "string \<rightharpoonup> (string \<rightharpoonup> string)" where
  "TILE_MAP = map_of
     [(''OpenStreetMap'', map_of
         [(''tiles'', ''OpenStreetMap''),
          (''attr'', CHR 0xA9 # '' OpenStreetMap contributors'')]),
      (''CartoDB Positron'', map_of
         [(''tiles'', ''CartoDB Positron''),
          (''attr'', CHR 0xA9 # '' OpenStreetMap contributors '' @ CHR 0xA9 # '' CartoDB'')]),
      (''Stamen Terrain'', map_of
         [(''tiles'', ''Stamen Terrain''),
          (''attr'', ''Map tiles by Stamen Design, under CC BY 3.0. Data ''
                     @ CHR 0xA9 # '' OpenStreetMap contributors'')])]"

text \<open>\<open>d[k]\<close> raises \<open>KeyError\<close> on a missing key; \<open>d.get(k, default)\<close> does not.\<close>

definition getitem :: "('k \<rightharpoonup> 'v) \<Rightarrow> 'k \<Rightarrow> exn + 'v" where
  "getitem d k = (case d k of None \<Rightarrow> Inl (Exception ''KeyError'') | Some v \<Rightarrow> Inr v)"

definition dict_get :: "('k \<rightharpoonup> 'v) \<Rightarrow> 'k \<Rightarrow> 'v \<Rightarrow> 'v" where
  "dict_get d k dflt = (case d k of None \<Rightarrow> dflt | Some v \<Rightarrow> v)"

text \<open>
  The two computations \<open>create_map\<close> guards with \<open>try\<close>: the centroid of the frame,
  as \<open>(x, y)\<close>, and the GeoJSON layer built from the frame and the tooltip fields.
\<close>

record renderer =
  centroid :: "gdf \<Rightarrow> exn + coord"
  geojson :: "gdf \<Rightarrow> string list \<Rightarrow> exn + string"

datatype layer = GeoJson string | LayerControl

record folium_map =
  location :: coord
  zoom_start :: nat
  tiles :: string
  attr :: string
  layers :: "layer list"

definition create_map ::
  "renderer \<Rightarrow> gdf option \<Rightarrow> string \<Rightarrow> world \<Rightarrow> folium_map outcome \<times> world" where
  "create_map rd gdf basemap w =
     (let default_center = (- 6.2088, 106.8456);
          center = (case gdf of
                      None \<Rightarrow> default_center
                    | Some g \<Rightarrow>
                        if \<not> gdf_empty g
                        then (case centroid rd g of
                                Inl e \<Rightarrow> default_center
                              | Inr (x, y) \<Rightarrow> (y, x))
                        else default_center)
      in case getitem TILE_MAP ''OpenStreetMap'' of
           Inl e \<Rightarrow> (Raise e, w)
         | Inr dflt \<Rightarrow>
            (let tile_info = dict_get TILE_MAP basemap dflt
             in case getitem tile_info ''tiles'' of
                  Inl e \<Rightarrow> (Raise e, w)
                | Inr tiles_v \<Rightarrow>
                   (case getitem tile_info ''attr'' of
                      Inl e \<Rightarrow> (Raise e, w)
                    | Inr attr_v \<Rightarrow>
                       (let m = \<lparr>location = center, zoom_start = 10, tiles = tiles_v, attr = attr_v,
                                 layers = []\<rparr>;
                            mw = (case gdf of
                                    None \<Rightarrow> (m, w)
                                  | Some g \<Rightarrow>
                                      if \<not> gdf_empty g
                                      then (case geojson rd g (filter (\<lambda>c. c \<noteq> ''geometry'') (columns g)) of
                                              Inl e \<Rightarrow>
                                                (m, w\<lparr>events := events w @ [StWarning (LayerNotAdded e)]\<rparr>)
                                            | Inr js \<Rightarrow> (m\<lparr>layers := [GeoJson js]\<rparr>, w))
                                      else (m, w))
                        in (Return ((fst mw)\<lparr>layers := layers (fst mw) @ [LayerControl]\<rparr>), snd mw)))))"

subsection \<open>Reading the event list\<close>

text \<open>The \<open>st.error\<close> messages among the events, in order.\<close>

fun error_of :: "event \<Rightarrow> message list" where
  "error_of (StError m) = [m]"
| "error_of _ = []"

definition st_errors :: "world \<Rightarrow> message list" where
  "st_errors w = concat (map error_of (events w))"

text \<open>The paths removed by \<open>os.remove\<close> and \<open>shutil.rmtree\<close> among the events, in order.\<close>

fun removal_of :: "event \<Rightarrow> path list" where
  "removal_of (Removed p) = [p]"
| "removal_of (RemovedTree d) = [d]"
| "removal_of _ = []"

definition removals :: "world \<Rightarrow> path list" where
  "removals w = concat (map removal_of (events w))"

subsection \<open>Concrete uploads and environments\<close>

definition w0 :: world where
  "w0 = \<lparr>fs = Map.empty, events = []\<rparr>"

definition monas :: gdf where
  "monas = \<lparr>columns = [''name'', ''geometry''],
            rows = [[Scalar ''Monas'', Geom [(106.8272, - 6.1754)]]],
            crs_attr = Unlabelled\<rparr>"

definition one_file :: "path \<Rightarrow> string option \<Rightarrow> gdf \<Rightarrow> path \<Rightarrow> string option \<Rightarrow> exn + gdf" where
  "one_file p d g q e = (if q = p \<and> e = d then Inr g else Inl (Exception ''DriverError''))"

definition env0 :: env where
  "env0 = \<lparr>tmp_create = None, tmp_stem = ''/tmp/tmpk3x9'', tmp_write = None,
           io_buffer_size = 8192,
           mkdtemp = Inr ''/tmp/tmpd1r0'', extractall = ([], None),
           read_file = (\<lambda>p d. Inl (Exception ''DriverError'')),
           transformer = (\<lambda>a b. Inl (Exception ''CRSError''))\<rparr>"

definition up_geojson :: upload where
  "up_geojson = \<lparr>name = ''Monas.GeoJSON'', buffer = [123, 125]\<rparr>"

definition env_geojson :: "gdf \<Rightarrow> env" where
  "env_geojson g = env0\<lparr>read_file := one_file ''/tmp/tmpk3x9.geojson'' None g\<rparr>"

definition monas_utm :: gdf where
  "monas_utm = \<lparr>columns = [''name'', ''geometry''],
                rows = [[Scalar ''Monas'', Geom [(702000, 9317000)]]],
                crs_attr = Labelled (EPSG 32748)\<rparr>"

text \<open>A stand-in for the pyproj transformation from UTM zone 48S.\<close>

definition from_utm48s :: "crs \<Rightarrow> crs \<Rightarrow> exn + (coord \<Rightarrow> coord)" where
  "from_utm48s a b =
     (if a = EPSG 32748 \<and> b = EPSG 4326
      then Inr (\<lambda>(x, y). (105 + (x - 500000) / 111000, (y - 10000000) / 111000))
      else Inl (Exception ''CRSError''))"

definition monas_wgs84 :: gdf where
  "monas_wgs84 = monas\<lparr>crs_attr := Labelled (EPSG 4326)\<rparr>"

definition no_features :: gdf where
  "no_features = monas\<lparr>rows := []\<rparr>"

definition up_zip :: upload where
  "up_zip = \<lparr>name = ''bundles.zip'', buffer = [80, 75, 3, 4]\<rparr>"

definition road_bundle :: "entry list" where
  "road_bundle = [File ''roads.dbf'', File ''roads.shp'', File ''roads.shx'']"

definition tree_ab :: "entry list" where
  "tree_ab = [Dir ''a'' road_bundle, Dir ''b'' road_bundle]"

definition tree_ba :: "entry list" where
  "tree_ba = [Dir ''b'' road_bundle, Dir ''a'' road_bundle]"

definition tree_readme :: "entry list" where
  "tree_readme = [File ''README.txt'', Dir ''docs'' [File ''notes.md'', File ''shp'']]"

definition roads_a :: gdf where
  "roads_a = \<lparr>columns = [''name'', ''geometry''],
              rows = [[Scalar ''Jalan A'', Geom [(106.80, - 6.20), (106.81, - 6.21)]]],
              crs_attr = Labelled (EPSG 4326)\<rparr>"

definition roads_b :: gdf where
  "roads_b = \<lparr>columns = [''name'', ''geometry''],
              rows = [[Scalar ''Jalan B'', Geom [(106.90, - 6.30), (106.91, - 6.31)]]],
              crs_attr = Labelled (EPSG 4326)\<rparr>"

definition driver_ab :: "path \<Rightarrow> string option \<Rightarrow> exn + gdf" where
  "driver_ab p drv =
     (if drv = Some ''ESRI Shapefile'' \<and> p = ''/tmp/tmpd1r0/a/roads.shp'' then Inr roads_a
      else if drv = Some ''ESRI Shapefile'' \<and> p = ''/tmp/tmpd1r0/b/roads.shp'' then Inr roads_b
      else Inl (Exception ''DriverError''))"

definition env_zip :: "entry list \<Rightarrow> env" where
  "env_zip es = env0\<lparr>extractall := (es, None), read_file := driver_ab\<rparr>"

definition up_txt :: upload where
  "up_txt = \<lparr>name = ''jakarta.txt'', buffer = [123, 125]\<rparr>"

text \<open>A driver that recognises the content of the scratch file, whatever its name.\<close>

definition env_txt :: env where
  "env_txt = env0\<lparr>read_file := one_file ''/tmp/tmpk3x9.txt'' None monas_wgs84\<rparr>"

text \<open>A scratch volume with no space left: the device refuses the bytes (\<open>OSError\<close>).\<close>

definition env_full :: env where
  "env_full =
     env0\<lparr>tmp_write := Some (DeviceFault (Exception ''[Errno 28] No space left on device''))\<rparr>"


text \<open>A scratch file that cannot be removed: \<open>os.remove\<close> raises \<open>PermissionError\<close>.\<close>

definition locked :: deletion where
  "locked = \<lparr>os_remove = Some (Exception ''[Errno 13] Permission denied''),
              rmtree_deletes = True\<rparr>"

text \<open>
  A plain \<open>DataFrame\<close> with rows and a text column that happens to be called
  \<open>geometry\<close>.
\<close>

definition survey_table :: gdf where
  "survey_table = \<lparr>columns = [''site'', ''geometry''],
                   rows = [[Scalar ''Monas'', Scalar ''POINT (106.8272 -6.1754)'']],
                   crs_attr = NoAttribute\<rparr>"

text \<open>An upload whose extension has a capital outside ASCII (\<open>.\<close>, U+00C9, \<open>XT\<close>).\<close>

definition up_ext :: upload where
  "up_ext = \<lparr>name = ''map.'' @ [CHR 0xC9] @ ''XT'', buffer = [123, 125]\<rparr>"

definition renderer0 :: renderer where
  "renderer0 = \<lparr>centroid = (\<lambda>g. Inl (Exception ''GEOSException'')),
                geojson = (\<lambda>g fields. Inl (Exception ''ValueError''))\<rparr>"


section \<open>Properties\<close>

subsection \<open>The \<open>finally\<close> block when the deletions do what they are asked\<close>

lemma cleanup_unfold:
  "cleanup l w =
     (let w1 = (case tmp_path l of
                  Some p \<Rightarrow>
                    if p \<noteq> [] \<and> fs w p \<noteq> None
                    then w\<lparr>fs := (fs w)(p := None), events := events w @ [Removed p]\<rparr>
                    else w
                | None \<Rightarrow> w)
      in case extract_dir l of
           Some d \<Rightarrow>
             if d \<noteq> [] \<and> fs w1 d \<noteq> None
             then w1\<lparr>fs := (fs w1)(d := None), events := events w1 @ [RemovedTree d]\<rparr>
             else w1
         | None \<Rightarrow> w1)"
  by (simp add: cleanup_def finally_block_def remove_tmp_def remove_tree_def reliable_def Let_def
           split: option.splits)

lemma finally_block_reliable: "finally_block reliable l w = (None, cleanup l w)"
  by (simp add: cleanup_def finally_block_def remove_tmp_def reliable_def split: option.splits)

lemma load_data_unfold:
  "load_data env uploaded_file w =
     (case uploaded_file of
        None \<Rightarrow> (Return None, w)
      | Some up \<Rightarrow>
          (case try_body env up w of
             (r, l, w1) \<Rightarrow>
               (case except_Exception r w1 of
                  (r', w2) \<Rightarrow> (r', cleanup l w2))))"
  by (simp add: load_data_def load_data_with_def finally_block_reliable
           split: option.splits prod.splits)

subsection \<open>How a call of \<open>load_data\<close> decomposes\<close>

lemma read_zip_Returns: "read_zip env w = (Returns v, d, w') \<Longrightarrow> v = None"
  by (auto simp: read_zip_def Let_def split: sum.splits prod.splits option.splits list.splits)

lemma read_upload_Returns: "read_upload env up w = (Returns v, l, w') \<Longrightarrow> v = None"
  by (auto simp: read_upload_def Let_def dest: read_zip_Returns
           split: sum.splits prod.splits if_splits scratch_result.splits)

lemma normalise_Some:
  assumes "fst (normalise env g w) = Return (Some g')"
  shows "\<not> gdf_empty g \<and> ''geometry'' \<in> set (columns g) \<and> crs g' = Some (EPSG 4326)
         \<and> columns g' = columns g \<and> length (rows g') = length (rows g)"
  using assms
  by (auto simp: normalise_def getattr_crs_def set_crs_def to_crs_def crs_def
           split: if_splits sum.splits option.splits crs_attr.splits)

lemma crs_Some_iff: "crs g = Some c \<longleftrightarrow> crs_attr g = Labelled c"
  by (simp add: crs_def split: crs_attr.splits)

lemma normalise_already:
  assumes "\<not> gdf_empty d" and "''geometry'' \<in> set (columns d)" and "crs d = Some (EPSG 4326)"
  shows "normalise env d w = (Return (Some d), w)"
  using assms by (simp add: normalise_def getattr_crs_def to_crs_def crs_Some_iff)

lemma normalise_unlabelled:
  assumes "\<not> gdf_empty d" and "''geometry'' \<in> set (columns d)" and "crs_attr d = Unlabelled"
  shows "normalise env d w = (Return (Some (d\<lparr>crs_attr := Labelled (EPSG 4326)\<rparr>)), w)"
  using assms by (simp add: normalise_def getattr_crs_def set_crs_def)

lemma normalise_plain:
  assumes "\<not> gdf_empty d" and "''geometry'' \<in> set (columns d)" and "crs_attr d = NoAttribute"
  shows "normalise env d w =
           (Raise (Exception ''AttributeError: DataFrame object has no attribute crs''), w)"
  using assms by (simp add: normalise_def getattr_crs_def)

lemma load_data_Some:
  assumes "fst (load_data env uploaded_file w) = Return (Some g')"
  shows "\<exists>up g l w1. uploaded_file = Some up \<and> read_upload env up w = (Continue g, l, w1)
           \<and> fst (normalise env g w1) = Return (Some g')"
  using assms
  by (auto simp: load_data_unfold try_body_def except_Exception_def
           dest: read_upload_Returns
           split: option.splits prod.splits step.splits outcome.splits)

lemma load_data_Continue:
  assumes "read_upload env up w = (Continue g, l, w1)"
  shows "load_data env (Some up) w =
           (case except_Exception (fst (normalise env g w1)) (snd (normalise env g w1)) of
              (r, w2) \<Rightarrow> (r, cleanup l w2))"
  using assms by (simp add: load_data_unfold try_body_def split: prod.splits)

lemma load_data_fst_Continue:
  assumes "fst (read_upload env up w) = Continue g"
  shows "fst (load_data env (Some up) w) =
           fst (except_Exception (fst (normalise env g (snd (snd (read_upload env up w)))))
                  (snd (normalise env g (snd (snd (read_upload env up w))))))"
  using assms by (cases "read_upload env up w") (simp add: load_data_Continue split: prod.splits)

lemma normalise_fst_world: "fst (normalise env g w) = fst (normalise env g w')"
  by (simp add: normalise_def getattr_crs_def split: sum.splits)

lemma read_upload_zip:
  assumes "suffix_of up = ''.zip''" "tmp_create env = None" "tmp_write env = None"
    "mkdtemp env = Inr d" "extractall env = (es, None)"
  shows "fst (read_upload env up w) =
           (case shp_files (walk d es) of
              [] \<Rightarrow> Returns None
            | p # _ \<Rightarrow> (case read_file env p (Some ''ESRI Shapefile'') of
                          Inl e \<Rightarrow> Raises e
                        | Inr g \<Rightarrow> Continue g))"
  using assms
  by (simp add: read_upload_def write_scratch_def tmp_write_outcome_def read_zip_def os_walk_def Let_def
           split: list.splits sum.splits)

lemma load_data_Raises:
  assumes "fst (read_upload env up w) = Raises e"
  shows "fst (load_data env (Some up) w) = Return None"
proof -
  obtain l w1 where ru: "read_upload env up w = (Raises e, l, w1)"
    using assms by (cases "read_upload env up w") auto
  show "fst (load_data env (Some up) w) = Return None"
    using ru by (simp add: load_data_unfold try_body_def except_Exception_def)
qed

subsection \<open>The messages a call reports\<close>

lemma st_errors_cleanup: "st_errors (cleanup l w) = st_errors w"
  by (simp add: cleanup_unfold st_errors_def Let_def split: option.splits)

lemma write_scratch_errors: "st_errors (snd (write_scratch env up sfx w)) = st_errors w"
  by (simp add: write_scratch_def st_errors_def Let_def split: option.splits write_outcome.splits)

lemma read_zip_errors:
  "st_errors (snd (snd (read_zip env w))) =
     st_errors w @ (case fst (read_zip env w) of
                      Returns v \<Rightarrow> (case extractall env of
                                      (es, Some e) \<Rightarrow> [ZipNotExtractable e]
                                    | (es, None) \<Rightarrow> [ZipNoShp])
                    | _ \<Rightarrow> [])"
  by (simp add: read_zip_def st_errors_def Let_def
           split: sum.splits prod.splits option.splits list.splits)

lemma read_upload_errors:
  "st_errors (snd (snd (read_upload env up w))) =
     st_errors w @ (case fst (read_upload env up w) of
                      Returns v \<Rightarrow> (case extractall env of
                                      (es, Some e) \<Rightarrow> [ZipNotExtractable e]
                                    | (es, None) \<Rightarrow> [ZipNoShp])
                    | _ \<Rightarrow> [])"
proof (cases "write_scratch env up (suffix_of up) w")
  case (Pair r w1)
  have e1: "st_errors w1 = st_errors w"
    using write_scratch_errors [of env up "suffix_of up" w] Pair by simp
  show ?thesis
  proof (cases r)
    case (Failed e tp)
    with Pair e1 show ?thesis by (simp add: read_upload_def)
  next
    case (Written p)
    show ?thesis
    proof (cases "suffix_of up = ''.zip''")
      case True
      with Pair Written e1 read_zip_errors [of env w1] show ?thesis
        by (cases "read_zip env w1") (simp add: read_upload_def)
    next
      case False
      with Pair Written e1 show ?thesis
        by (simp add: read_upload_def split: sum.splits)
    qed
  qed
qed

lemma normalise_errors:
  "st_errors (snd (normalise env g w)) =
     st_errors w @ (case fst (normalise env g w) of Return None \<Rightarrow> [NoGeometryColumn] | _ \<Rightarrow> [])"
  by (simp add: normalise_def st_errors_def split: sum.splits)

lemma try_body_errors:
  "\<exists>ms. st_errors (snd (snd (try_body env up w))) = st_errors w @ ms
     \<and> (case fst (try_body env up w) of
            Return None \<Rightarrow> length ms = 1
          | _ \<Rightarrow> ms = [])"
proof (cases "read_upload env up w")
  case (fields s l w1)
  show ?thesis
  proof (cases s)
    case (Continue g)
    with fields read_upload_errors [of env up w] normalise_errors [of env g w1] show ?thesis
      by (cases "normalise env g w1")
         (auto simp: try_body_def split: outcome.splits option.splits)
  next
    case (Returns v)
    with fields read_upload_Returns [of env up w v l w1] read_upload_errors [of env up w]
    show ?thesis
      by (auto simp: try_body_def split: prod.splits option.splits)
  next
    case (Raises e)
    with fields read_upload_errors [of env up w] show ?thesis
      by (simp add: try_body_def)
  qed
qed

lemma load_data_Returns:
  assumes "fst (read_upload env up w) = Returns v"
  shows "fst (load_data env (Some up) w) = Return None"
    and "st_errors (snd (load_data env (Some up) w)) = st_errors (snd (snd (read_upload env up w)))"
proof -
  obtain l w1 where ru: "read_upload env up w = (Returns v, l, w1)"
    using assms by (cases "read_upload env up w") auto
  have v: "v = None" using read_upload_Returns [OF ru] .
  show "fst (load_data env (Some up) w) = Return None"
    using ru v by (simp add: load_data_unfold try_body_def except_Exception_def)
  show "st_errors (snd (load_data env (Some up) w)) = st_errors (snd (snd (read_upload env up w)))"
    using ru v by (simp add: load_data_unfold try_body_def except_Exception_def st_errors_cleanup)
qed

subsection \<open>The call for any behaviour of the two deletions\<close>

lemma remove_tree_errors: "st_errors (remove_tree rm l w) = st_errors w"
  by (simp add: remove_tree_def st_errors_def split: option.splits)

lemma remove_tmp_errors: "st_errors (snd (remove_tmp rm l w)) = st_errors w"
  by (simp add: remove_tmp_def st_errors_def split: option.splits)

lemma finally_block_errors: "st_errors (snd (finally_block rm l w)) = st_errors w"
proof (cases "remove_tmp rm l w")
  case (Pair x w1)
  with remove_tmp_errors [of rm l w] remove_tree_errors [of rm l w1] show ?thesis
    by (cases x) (simp_all add: finally_block_def)
qed

lemma finally_block_events: "\<exists>evs. events (snd (finally_block rm l w)) = events w @ evs"
  by (simp add: finally_block_def remove_tmp_def remove_tree_def split: option.splits)

lemma finally_block_Some:
  assumes "fst (finally_block rm l w) = Some e"
  shows "os_remove rm = Some e"
  using assms
  by (auto simp: finally_block_def remove_tmp_def split: option.splits prod.splits if_splits)

lemma finally_block_None:
  assumes "os_remove rm = None"
  shows "fst (finally_block rm l w) = None"
  using assms by (simp add: finally_block_def remove_tmp_def split: option.splits)

lemma load_data_with_unfold:
  assumes "os_remove rm = None"
  shows "load_data_with rm env (Some up) w =
           (case try_body env up w of
              (r, l, w1) \<Rightarrow>
                (case except_Exception r w1 of
                   (r', w2) \<Rightarrow> (r', snd (finally_block rm l w2))))"
proof -
  obtain r l w1 where tb: "try_body env up w = (r, l, w1)"
    by (cases "try_body env up w") auto
  obtain r' w2 where ex: "except_Exception r w1 = (r', w2)"
    by (cases "except_Exception r w1") auto
  obtain w3 where "finally_block rm l w2 = (None, w3)"
    using finally_block_None [OF assms, of l w2] by (cases "finally_block rm l w2") simp
  with tb ex show ?thesis
    by (simp add: load_data_with_def)
qed

lemma load_data_with_Raise:
  assumes "fst (load_data_with rm env uploaded_file w) = Raise e"
  shows "os_remove rm = Some e"
proof (cases uploaded_file)
  case None
  with assms show ?thesis by (simp add: load_data_with_def)
next
  case (Some up)
  obtain r l w1 where tb: "try_body env up w = (r, l, w1)"
    by (cases "try_body env up w") auto
  obtain r' w2 where ex: "except_Exception r w1 = (r', w2)"
    by (cases "except_Exception r w1") auto
  have nr: "r' \<noteq> Raise e"
    using ex by (auto simp: except_Exception_def split: outcome.splits)
  obtain x w3 where fb: "finally_block rm l w2 = (x, w3)"
    by (cases "finally_block rm l w2") auto
  from assms Some tb ex fb nr have "x = Some e"
    by (cases x) (simp_all add: load_data_with_def)
  with fb finally_block_Some [of rm l w2 e] show ?thesis by simp
qed

lemma load_data_with_returns:
  assumes "os_remove rm = None"
  shows "\<exists>v w'. load_data_with rm env (Some up) w = (Return v, w')
          \<and> (case v of
                Some g \<Rightarrow> st_errors w' = st_errors w
              | None \<Rightarrow> \<exists>m. st_errors w' = st_errors w @ [m])"
proof -
  obtain r l w1 where tb: "try_body env up w = (r, l, w1)"
    by (cases "try_body env up w") auto
  from try_body_errors [of env up w] tb obtain ms where
    ms: "st_errors w1 = st_errors w @ ms"
        "case r of Return None \<Rightarrow> length ms = 1 | _ \<Rightarrow> ms = []"
    by auto
  show ?thesis
  proof (cases r)
    case (Raise e)
    with tb ms show ?thesis
      by (simp add: load_data_with_unfold [OF assms] except_Exception_def finally_block_errors)
         (simp add: st_errors_def)
  next
    case (Return v)
    show ?thesis
    proof (cases v)
      case None
      with Return ms obtain m where "ms = [m]"
        by (cases ms) auto
      with tb ms Return None show ?thesis
        by (simp add: load_data_with_unfold [OF assms] except_Exception_def finally_block_errors)
    next
      case (Some g)
      with tb ms Return show ?thesis
        by (simp add: load_data_with_unfold [OF assms] except_Exception_def finally_block_errors)
    qed
  qed
qed


subsection \<open>Uploads that are not archives\<close>

lemma tmp_write_outcome_None: "tmp_write env = None \<Longrightarrow> tmp_write_outcome env up = WriteOk"
  by (simp add: tmp_write_outcome_def)

lemma read_upload_direct:
  assumes "suffix_of up \<noteq> ''.zip''" "tmp_create env = None" "tmp_write env = None"
  shows "read_upload env up w =
           (case read_file env (tmp_stem env @ suffix_of up) None of
              Inl e \<Rightarrow> Raises e
            | Inr g \<Rightarrow> Continue g,
            \<lparr>tmp_path = Some (tmp_stem env @ suffix_of up), extract_dir = None\<rparr>,
            w\<lparr>fs := (fs w)(tmp_stem env @ suffix_of up \<mapsto> RegularFile (buffer up)),
              events := events w @ [Created (tmp_stem env @ suffix_of up)]\<rparr>)"
  using assms
  by (simp add: read_upload_def write_scratch_def tmp_write_outcome_None Let_def split: sum.splits)

lemma normalise_events: "\<exists>evs. events (snd (normalise env g w)) = events w @ evs"
  by (simp add: normalise_def split: sum.splits)

lemma st_errors_Created:
  "st_errors (w\<lparr>fs := f, events := events w @ [Created p]\<rparr>) = st_errors w"
  by (simp add: st_errors_def)

lemma try_body_direct:
  assumes "suffix_of up \<noteq> ''.zip''" "tmp_create env = None" "tmp_write env = None"
  shows "\<exists>r w1 evs.
           try_body env up w
             = (r, \<lparr>tmp_path = Some (tmp_stem env @ suffix_of up), extract_dir = None\<rparr>, w1)
           \<and> events w1
               = events (w\<lparr>fs := (fs w)(tmp_stem env @ suffix_of up \<mapsto> RegularFile (buffer up)),
                            events := events w @ [Created (tmp_stem env @ suffix_of up)]\<rparr>) @ evs"
proof (cases "read_file env (tmp_stem env @ suffix_of up) None")
  case (Inl e)
  with read_upload_direct [OF assms, of w] show ?thesis
    by (simp add: try_body_def)
next
  case (Inr g)
  let ?w1 = "w\<lparr>fs := (fs w)(tmp_stem env @ suffix_of up \<mapsto> RegularFile (buffer up)),
               events := events w @ [Created (tmp_stem env @ suffix_of up)]\<rparr>"
  obtain r w2 where n: "normalise env g ?w1 = (r, w2)"
    by (cases "normalise env g ?w1") auto
  with normalise_events [of env g ?w1] obtain evs where "events w2 = events ?w1 @ evs"
    by auto
  with Inr n read_upload_direct [OF assms, of w] show ?thesis
    by (simp add: try_body_def)
qed

subsection \<open>The order of the \<open>.shp\<close> paths found\<close>

lemma shp_files_Cons:
  "shp_files ((d, dn, fn) # ts) =
     map (path_join d) (filter (\<lambda>file. endswith (lower file) ''.shp'') fn) @ shp_files ts"
  by (simp add: shp_files_def)

lemma shp_files_append: "shp_files (a @ b) = shp_files a @ shp_files b"
  by (simp add: shp_files_def)

lemma shp_files_Nil: "shp_files [] = []"
  by (simp add: shp_files_def)

lemma filenames_Cons:
  "filenames (File n # es) = n # filenames es" "filenames (Dir n sub # es) = filenames es"
  "filenames [] = []"
  by (simp_all add: filenames_def)

lemma shp_files_walk_dirs:
  "shp_files (walk_dirs d es) =
     concat (map (\<lambda>e. case e of Dir n sub \<Rightarrow> shp_files (walk (path_join d n) sub) | File n \<Rightarrow> []) es)"
proof (induction es)
  case Nil
  show ?case by (simp add: shp_files_Nil)
next
  case (Cons e es)
  then show ?case
    by (cases e) (simp_all add: shp_files_append shp_files_Cons)
qed

lemma shp_files_walk:
  "shp_files (walk d es) =
     map (path_join d) (filter (\<lambda>file. endswith (lower file) ''.shp'') (filenames es))
     @ concat (map (\<lambda>e. case e of Dir n sub \<Rightarrow> shp_files (walk (path_join d n) sub) | File n \<Rightarrow> []) es)"
  by (simp add: shp_files_Cons shp_files_walk_dirs)

lemma has_shp_walk:
  "(shp_files (walk d es) \<noteq> []) = has_shp_list es"
  "(shp_files (walk_dirs d es) \<noteq> []
      \<or> filter (\<lambda>file. endswith (lower file) ''.shp'') (filenames es) \<noteq> []) = has_shp_list es"
proof (induction d es and d es rule: walk_walk_dirs.induct)
  case (1 d es)
  then show ?case by (auto simp: shp_files_Cons)
next
  case (2 d)
  show ?case by (simp add: shp_files_Nil filenames_Cons)
next
  case (3 d n es)
  then show ?case by (auto simp: filenames_Cons)
next
  case (4 d n sub es)
  then show ?case by (auto simp: filenames_Cons shp_files_append shp_files_Cons)
qed

subsection \<open>Scratch storage after a call\<close>

text \<open>
  When line 71 does not raise and the deletions do what they are asked, the call leaves
  the scratch storage as it found it, on every path.
\<close>

lemma normalise_fs: "fs (snd (normalise env g w)) = fs w"
  by (simp add: normalise_def split: sum.splits)

lemma except_Exception_fs: "fs (snd (except_Exception r w)) = fs w"
  by (simp add: except_Exception_def split: outcome.splits)

lemma read_zip_fs:
  "(case mkdtemp env of
      Inl e \<Rightarrow> fst (snd (read_zip env w)) = None \<and> fs (snd (snd (read_zip env w))) = fs w
    | Inr d \<Rightarrow> fst (snd (read_zip env w)) = Some d
               \<and> fs (snd (snd (read_zip env w))) = (fs w)(d \<mapsto> Directory (fst (extractall env))))"
  by (simp add: read_zip_def Let_def split: sum.splits prod.splits option.splits list.splits)

lemma write_scratch_fs:
  assumes "\<And>e. tmp_write_outcome env up \<noteq> WriteRaises e"
  shows "(case fst (write_scratch env up sfx w) of
            Failed e tp \<Rightarrow>
              (tp = None \<and> fs (snd (write_scratch env up sfx w)) = fs w)
              \<or> (tp = Some (tmp_stem env @ sfx)
                  \<and> fs (snd (write_scratch env up sfx w)) = (fs w)(tmp_stem env @ sfx \<mapsto> RegularFile []))
          | Written p \<Rightarrow>
              p = tmp_stem env @ sfx
              \<and> fs (snd (write_scratch env up sfx w)) = (fs w)(p \<mapsto> RegularFile (buffer up)))"
  using assms
  by (cases "tmp_write_outcome env up")
     (auto simp: write_scratch_def Let_def split: option.splits)

lemma try_body_fs:
  assumes "\<And>e. tmp_write_outcome env up \<noteq> WriteRaises e" and "try_body env up w = (r, l, w1)"
  shows "(tmp_path l = None \<and> extract_dir l = None \<and> fs w1 = fs w)
         \<or> (\<exists>b. tmp_path l = Some (tmp_stem env @ suffix_of up) \<and> extract_dir l = None
               \<and> fs w1 = (fs w)(tmp_stem env @ suffix_of up \<mapsto> b))
         \<or> (\<exists>b d c. tmp_path l = Some (tmp_stem env @ suffix_of up) \<and> extract_dir l = Some d
               \<and> mkdtemp env = Inr d
               \<and> fs w1 = (fs w)(tmp_stem env @ suffix_of up \<mapsto> b, d \<mapsto> c))"
proof -
  obtain x w0 where ws: "write_scratch env up (suffix_of up) w = (x, w0)"
    by (cases "write_scratch env up (suffix_of up) w") auto
  note wf = write_scratch_fs [OF assms(1), of "suffix_of up" w]
  obtain s l' w' where ru: "read_upload env up w = (s, l', w')"
    by (cases "read_upload env up w") auto
  have nf: "fs b = fs w'" if "normalise env g w' = (a, b)" for g a b
    using normalise_fs [of env g w'] that by simp
  have lw: "l = l' \<and> fs w1 = fs w'"
    using assms(2) ru
    by (auto simp: try_body_def split: step.splits prod.splits dest: nf)
  show ?thesis
  proof (cases x)
    case (Failed e tp)
    with ws wf ru lw show ?thesis by (auto simp: read_upload_def Let_def)
  next
    case (Written p)
    with ws wf have p: "p = tmp_stem env @ suffix_of up"
      and f0: "fs w0 = (fs w)(p \<mapsto> RegularFile (buffer up))" by simp_all
    show ?thesis
    proof (cases "suffix_of up = ''.zip''")
      case False
      with ws Written ru lw p f0 show ?thesis
        by (auto simp: read_upload_def Let_def split: sum.splits)
    next
      case True
      obtain s2 d2 w2 where rz: "read_zip env w0 = (s2, d2, w2)"
        by (cases "read_zip env w0") auto
      with True ws Written ru have e: "l' = \<lparr>tmp_path = Some p, extract_dir = d2\<rparr>" "w' = w2"
        by (simp_all add: read_upload_def Let_def)
      show ?thesis
      proof (cases "mkdtemp env")
        case (Inl e')
        with read_zip_fs [of env w0] rz e lw p f0 show ?thesis by auto
      next
        case (Inr d)
        with read_zip_fs [of env w0] rz e lw p f0 show ?thesis by auto
      qed
    qed
  qed
qed

lemma load_data_removes_scratch:
  assumes "\<And>e. tmp_write_outcome env up \<noteq> WriteRaises e"
    and "tmp_stem env \<noteq> []" and "fs w (tmp_stem env @ suffix_of up) = None"
    and "\<And>d. mkdtemp env = Inr d \<Longrightarrow> d \<noteq> [] \<and> fs w d = None \<and> d \<noteq> tmp_stem env @ suffix_of up"
  shows "fs (snd (load_data env (Some up) w)) = fs w"
proof -
  obtain r l w1 where tb: "try_body env up w = (r, l, w1)"
    by (cases "try_body env up w") auto
  obtain r' w2 where ex: "except_Exception r w1 = (r', w2)"
    by (cases "except_Exception r w1") auto
  have f2: "fs w2 = fs w1"
    using except_Exception_fs [of r w1] ex by simp
  have ld: "snd (load_data env (Some up) w) = cleanup l w2"
    using tb ex by (simp add: load_data_unfold)
  from try_body_fs [OF assms(1) tb] consider
      (no_scratch) "tmp_path l = None" "extract_dir l = None" "fs w1 = fs w"
    | (only_file) b where "tmp_path l = Some (tmp_stem env @ suffix_of up)" "extract_dir l = None"
        "fs w1 = (fs w)(tmp_stem env @ suffix_of up \<mapsto> b)"
    | (file_and_dir) b d c where "tmp_path l = Some (tmp_stem env @ suffix_of up)" "extract_dir l = Some d"
        "mkdtemp env = Inr d" "fs w1 = (fs w)(tmp_stem env @ suffix_of up \<mapsto> b, d \<mapsto> c)"
    by (elim disjE exE conjE) blast+
  then show ?thesis
  proof cases
    case no_scratch
    with ld f2 show ?thesis by (simp add: cleanup_unfold)
  next
    case only_file
    with ld f2 assms(2,3) show ?thesis
      by (simp add: cleanup_unfold Let_def fun_upd_idem)
  next
    case file_and_dir
    with assms(4) [of d] have d: "d \<noteq> []" "fs w d = None" "d \<noteq> tmp_stem env @ suffix_of up"
      by simp_all
    with file_and_dir ld f2 assms(2,3) show ?thesis
      by (auto simp: cleanup_unfold Let_def fun_upd_idem fun_upd_twist)
  qed
qed

text \<open>
  When line 71 does not raise, each path created is removed, once.
\<close>

lemma normalise_removals: "removals (snd (normalise env g w)) = removals w"
  by (simp add: normalise_def removals_def split: sum.splits)

lemma except_Exception_removals: "removals (snd (except_Exception r w)) = removals w"
  by (simp add: except_Exception_def removals_def split: outcome.splits)

lemma write_scratch_removals: "removals (snd (write_scratch env up sfx w)) = removals w"
  by (simp add: write_scratch_def removals_def Let_def split: option.splits write_outcome.splits)

lemma read_zip_removals: "removals (snd (snd (read_zip env w))) = removals w"
  by (simp add: read_zip_def removals_def Let_def
        split: sum.splits prod.splits option.splits list.splits)

lemma read_upload_removals: "removals (snd (snd (read_upload env up w))) = removals w"
proof (cases "write_scratch env up (suffix_of up) w")
  case (Pair x w0)
  have r0: "removals w0 = removals w"
    using write_scratch_removals [of env up "suffix_of up" w] Pair by simp
  show ?thesis
  proof (cases x)
    case (Failed e tp)
    with Pair r0 show ?thesis by (simp add: read_upload_def Let_def)
  next
    case (Written p)
    show ?thesis
    proof (cases "suffix_of up = ''.zip''")
      case True
      with Pair Written r0 read_zip_removals [of env w0] show ?thesis
        by (cases "read_zip env w0") (simp add: read_upload_def Let_def)
    next
      case False
      with Pair Written r0 show ?thesis
        by (simp add: read_upload_def Let_def split: sum.splits)
    qed
  qed
qed

lemma try_body_removals: "removals (snd (snd (try_body env up w))) = removals w"
proof (cases "read_upload env up w")
  case (fields s l w1)
  with read_upload_removals [of env up w] have r1: "removals w1 = removals w" by simp
  show ?thesis
  proof (cases s)
    case (Continue g)
    with fields r1 normalise_removals [of env g w1] show ?thesis
      by (cases "normalise env g w1") (simp add: try_body_def)
  next
    case (Returns v)
    with fields r1 show ?thesis by (simp add: try_body_def)
  next
    case (Raises e)
    with fields r1 show ?thesis by (simp add: try_body_def)
  qed
qed

lemma load_data_removes_once:
  assumes "tmp_create env = None" "\<And>e. tmp_write_outcome env up \<noteq> WriteRaises e"
    and "tmp_stem env \<noteq> []" and "fs w (tmp_stem env @ suffix_of up) = None"
    and "\<And>d. mkdtemp env = Inr d \<Longrightarrow> d \<noteq> [] \<and> fs w d = None \<and> d \<noteq> tmp_stem env @ suffix_of up"
  shows "removals (snd (load_data env (Some up) w)) =
           removals w @ [tmp_stem env @ suffix_of up]
           @ (if suffix_of up = ''.zip'' \<and> tmp_write_outcome env up = WriteOk
              then (case mkdtemp env of Inl e \<Rightarrow> [] | Inr d \<Rightarrow> [d])
              else [])"
proof -
  let ?p = "tmp_stem env @ suffix_of up"
  obtain r l w1 where tb: "try_body env up w = (r, l, w1)"
    by (cases "try_body env up w") auto
  obtain r' w2 where ex: "except_Exception r w1 = (r', w2)"
    by (cases "except_Exception r w1") auto
  have f2: "fs w2 = fs w1"
    using except_Exception_fs [of r w1] ex by simp
  have r2: "removals w2 = removals w"
    using except_Exception_removals [of r w1] ex try_body_removals [of env up w] tb by simp
  have ld: "snd (load_data env (Some up) w) = cleanup l w2"
    using tb ex by (simp add: load_data_unfold)
  obtain x w0 where ws: "write_scratch env up (suffix_of up) w = (x, w0)"
    by (cases "write_scratch env up (suffix_of up) w") auto
  obtain s l' w' where ru: "read_upload env up w = (s, l', w')"
    by (cases "read_upload env up w") auto
  have nf: "fs b = fs w'" if "normalise env g w' = (a, b)" for g a b
    using normalise_fs [of env g w'] that by simp
  have lw: "l = l'" "fs w1 = fs w'"
    using tb ru by (auto simp: try_body_def split: step.splits prod.splits dest: nf)
  show ?thesis
  proof (cases "tmp_write_outcome env up")
    case (WriteRaises e)
    with assms(2) show ?thesis by blast
  next
    case (CloseRaises e)
    with ws assms(1) have "x = Failed e (Some ?p)" "fs w0 = (fs w)(?p \<mapsto> RegularFile [])"
      by (auto simp: write_scratch_def Let_def)
    with ws ru have "l' = \<lparr>tmp_path = Some ?p, extract_dir = None\<rparr>" "w' = w0"
      by (auto simp: read_upload_def Let_def)
    with lw \<open>fs w0 = (fs w)(?p \<mapsto> RegularFile [])\<close> f2 r2 ld CloseRaises assms(3) show ?thesis
      by (simp add: cleanup_unfold removals_def Let_def)
  next
    case WriteOk
    with ws assms(1) have x: "x = Written ?p" and f0: "fs w0 = (fs w)(?p \<mapsto> RegularFile (buffer up))"
      by (auto simp: write_scratch_def Let_def)
    show ?thesis
    proof (cases "suffix_of up = ''.zip''")
      case False
      with ws x ru have "l' = \<lparr>tmp_path = Some ?p, extract_dir = None\<rparr>" "w' = w0"
        by (auto simp: read_upload_def Let_def split: sum.splits)
      with lw f0 f2 r2 ld False assms(3) show ?thesis
        by (simp add: cleanup_unfold removals_def Let_def)
    next
      case True
      obtain s2 d2 wz where rz: "read_zip env w0 = (s2, d2, wz)"
        by (cases "read_zip env w0") auto
      with True ws x ru have e: "l' = \<lparr>tmp_path = Some ?p, extract_dir = d2\<rparr>" "w' = wz"
        by (simp_all add: read_upload_def Let_def)
      show ?thesis
      proof (cases "mkdtemp env")
        case (Inl e')
        with read_zip_fs [of env w0] rz have "d2 = None" "fs wz = fs w0" by simp_all
        with e lw f0 f2 r2 ld True Inl WriteOk assms(3) show ?thesis
          by (simp add: cleanup_unfold removals_def Let_def)
      next
        case (Inr d)
        with read_zip_fs [of env w0] rz have "d2 = Some d"
          "fs wz = (fs w0)(d \<mapsto> Directory (fst (extractall env)))" by simp_all
        moreover from assms(5) [OF Inr] have "d \<noteq> []" "d \<noteq> ?p" by simp_all
        ultimately show ?thesis
          using e lw f0 f2 r2 ld True Inr WriteOk assms(3)
          by (simp add: cleanup_unfold removals_def Let_def)
      qed
    qed
  qed
qed

subsection \<open>Concrete runs\<close>

lemma suffix_of_up_geojson: "suffix_of up_geojson = ''.geojson''"
  by code_simp

lemma read_upload_geojson:
  "fst (read_upload (env_geojson g) up_geojson w0) = Continue g"
  by (simp add: read_upload_def write_scratch_def tmp_write_outcome_def suffix_of_up_geojson env_geojson_def
        env0_def one_file_def Let_def)

lemma suffix_of_up_zip: "suffix_of up_zip = ''.zip''"
  by code_simp

lemma env_zip_fields:
  "tmp_create (env_zip es) = None" "tmp_write (env_zip es) = None"
  "mkdtemp (env_zip es) = Inr ''/tmp/tmpd1r0''" "extractall (env_zip es) = (es, None)"
  "read_file (env_zip es) = driver_ab" "tmp_stem (env_zip es) = ''/tmp/tmpk3x9''"
  by (simp_all add: env_zip_def env0_def)

lemma shp_files_tree_ab:
  "shp_files (walk ''/tmp/tmpd1r0'' tree_ab) = [''/tmp/tmpd1r0/a/roads.shp'', ''/tmp/tmpd1r0/b/roads.shp'']"
  by code_simp

lemma shp_files_tree_ba:
  "shp_files (walk ''/tmp/tmpd1r0'' tree_ba) = [''/tmp/tmpd1r0/b/roads.shp'', ''/tmp/tmpd1r0/a/roads.shp'']"
  by code_simp

lemma normalise_roads:
  "fst (normalise env roads_a w) = Return (Some roads_a)"
  "fst (normalise env roads_b w) = Return (Some roads_b)"
  by (simp_all add: normalise_def getattr_crs_def gdf_empty_def to_crs_def roads_a_def roads_b_def)

lemma suffix_of_up_txt: "suffix_of up_txt = ''.txt''"
  by code_simp

lemma not_recognized_txt: "\<not> recognized ''.txt''"
  by code_simp

lemma env_txt_fields:
  "tmp_create env_txt = None" "tmp_write env_txt = None" "tmp_stem env_txt = ''/tmp/tmpk3x9''"
  "read_file env_txt = one_file ''/tmp/tmpk3x9.txt'' None monas_wgs84"
  by (simp_all add: env_txt_def env0_def)





lemma buffer_up_geojson: "buffer up_geojson = [123, 125]"
  by (simp add: up_geojson_def)


lemma outcome_full_small:
  "tmp_write_outcome env_full up_geojson
     = CloseRaises (Exception ''[Errno 28] No space left on device'')"
  by (simp add: tmp_write_outcome_def env_full_def env0_def buffer_up_geojson)

lemma suffix_of_up_ext: "suffix_of up_ext = ''.'' @ [CHR 0xE9] @ ''xt''"
  by code_simp

lemma env_full_fields:
  "tmp_create env_full = None" "tmp_stem env_full = ''/tmp/tmpk3x9''"
  by (simp_all add: env_full_def env0_def)

subsection \<open>The reference system of the result\<close>

text \<open>
  C1. Whenever \<open>load_data\<close> returns a dataset, whatever the upload and whatever the
  external calls did, the reference system of that dataset is EPSG:4326 (WGS84).
\<close>

theorem load_data_crs_wgs84:
  assumes "fst (load_data env uploaded_file w) = Return (Some g)"
  shows "crs g = Some (EPSG 4326)"
  using load_data_Some [OF assms] normalise_Some by blast

text \<open>
  An upload in UTM zone 48S goes through \<open>to_crs\<close>; the frame returned carries the
  transformed coordinates and the label EPSG:4326.
\<close>

theorem load_data_crs_wgs84_witness:
  "fst (load_data ((env_geojson monas_utm)\<lparr>transformer := from_utm48s\<rparr>) (Some up_geojson) w0)
     = Return (Some \<lparr>columns = [''name'', ''geometry''],
                     rows = [[Scalar ''Monas'', Geom [(105 + 202 / 111, - 683 / 111)]]],
                     crs_attr = Labelled (EPSG 4326)\<rparr>)
   \<and> crs \<lparr>columns = [''name'', ''geometry''],
           rows = [[Scalar ''Monas'', Geom [(105 + 202 / 111, - 683 / 111)]]],
           crs_attr = Labelled (EPSG 4326)\<rparr> = Some (EPSG 4326)"
proof -
  have run: "fst (load_data ((env_geojson monas_utm)\<lparr>transformer := from_utm48s\<rparr>) (Some up_geojson) w0)
     = Return (Some \<lparr>columns = [''name'', ''geometry''],
                     rows = [[Scalar ''Monas'', Geom [(105 + 202 / 111, - 683 / 111)]]],
                     crs_attr = Labelled (EPSG 4326)\<rparr>)"
    by (simp add: load_data_unfold try_body_def read_upload_def write_scratch_def tmp_write_outcome_def
          suffix_of_up_geojson env_geojson_def env0_def one_file_def from_utm48s_def w0_def
          monas_utm_def normalise_def getattr_crs_def gdf_empty_def to_crs_def except_Exception_def Let_def)
  show ?thesis
    using run load_data_crs_wgs84 [OF run] by simp
qed

subsection \<open>Unlabelled and already normalised datasets\<close>



text \<open>
  The plain \<open>DataFrame\<close> with a text column called \<open>geometry\<close> passes the geometry
  check; reading its \<open>crs\<close> raises, and the call reports the general load failure.
\<close>

lemma load_data_plain_frame:
  "fst (load_data (env_geojson survey_table) (Some up_geojson) w0) = Return None
   \<and> st_errors (snd (load_data (env_geojson survey_table) (Some up_geojson) w0))
       = [LoadFailed (Exception ''AttributeError: DataFrame object has no attribute crs'')]"
  by (simp add: load_data_unfold try_body_def read_upload_def write_scratch_def
        tmp_write_outcome_def suffix_of_up_geojson env_geojson_def env0_def one_file_def w0_def
        normalise_def getattr_crs_def gdf_empty_def survey_table_def
        except_Exception_def cleanup_unfold st_errors_def Let_def)

text \<open>
  C5. When the driver returns a dataset that passes the geometry check and is labelled
  EPSG:4326, \<open>load_data\<close> returns exactly that dataset: \<open>to_crs\<close> is called, and
  hands back a frame that is already in the target system as it is.
\<close>

theorem load_data_already_wgs84:
  assumes "fst (read_upload env up w) = Continue d"
    and "\<not> gdf_empty d" and "''geometry'' \<in> set (columns d)" and "crs d = Some (EPSG 4326)"
  shows "fst (load_data env (Some up) w) = Return (Some d)"
  by (simp add: load_data_fst_Continue [OF assms(1)] normalise_already [OF assms(2-4)]
        except_Exception_def)

theorem load_data_already_wgs84_witness:
  "fst (read_upload (env_geojson monas_wgs84) up_geojson w0) = Continue monas_wgs84
   \<and> crs monas_wgs84 = Some (EPSG 4326)
   \<and> fst (load_data (env_geojson monas_wgs84) (Some up_geojson) w0) = Return (Some monas_wgs84)"
proof -
  have h1: "fst (read_upload (env_geojson monas_wgs84) up_geojson w0) = Continue monas_wgs84"
    by (rule read_upload_geojson)
  have h2: "\<not> gdf_empty monas_wgs84" by (simp add: gdf_empty_def monas_wgs84_def monas_def)
  have h3: "''geometry'' \<in> set (columns monas_wgs84)" by (simp add: monas_wgs84_def monas_def)
  have h4: "crs monas_wgs84 = Some (EPSG 4326)" by (simp add: monas_wgs84_def crs_def)
  show ?thesis
    using h1 h4 load_data_already_wgs84 [OF h1 h2 h3 h4] by simp
qed

subsection \<open>The geometry check\<close>

text \<open>
  C7. When the driver returns a dataset with no rows or without a column named
  \<open>geometry\<close>, \<open>load_data\<close> returns \<open>None\<close> and reports the missing-geometry
  message, and nothing else. Hence every dataset that \<open>load_data\<close> returns has at least
  one row and has the \<open>geometry\<close> column, so that every feature has a cell for it.
\<close>

theorem load_data_missing_geometry:
  "(fst (read_upload env up w) = Continue d \<and> (rows d = [] \<or> ''geometry'' \<notin> set (columns d))
      \<longrightarrow> fst (load_data env (Some up) w) = Return None
          \<and> st_errors (snd (load_data env (Some up) w)) = st_errors w @ [NoGeometryColumn])
   \<and> (fst (load_data env' uploaded_file w') = Return (Some g)
      \<longrightarrow> rows g \<noteq> [] \<and> ''geometry'' \<in> set (columns g))"
proof (intro conjI impI)
  assume a: "fst (read_upload env up w) = Continue d \<and> (rows d = [] \<or> ''geometry'' \<notin> set (columns d))"
  obtain l w1 where ru: "read_upload env up w = (Continue d, l, w1)"
    using a by (cases "read_upload env up w") auto
  have bad: "gdf_empty d \<or> ''geometry'' \<notin> set (columns d)"
    using a by (auto simp: gdf_empty_def)
  have e1: "st_errors w1 = st_errors w"
    using read_upload_errors [of env up w] ru by simp
  show "fst (load_data env (Some up) w) = Return None"
    using bad by (simp add: load_data_Continue [OF ru] normalise_def getattr_crs_def except_Exception_def)
  show "st_errors (snd (load_data env (Some up) w)) = st_errors w @ [NoGeometryColumn]"
    using bad e1
    by (simp add: load_data_Continue [OF ru] normalise_def getattr_crs_def except_Exception_def st_errors_cleanup)
       (simp add: st_errors_def)
next
  assume "fst (load_data env' uploaded_file w') = Return (Some g)"
  from load_data_Some [OF this] obtain up0 g0 l w1 where
    "fst (normalise env' g0 w1) = Return (Some g)" by blast
  from normalise_Some [OF this] show "rows g \<noteq> []"
    by (auto simp: gdf_empty_def)
  from normalise_Some [OF \<open>fst (normalise env' g0 w1) = Return (Some g)\<close>]
  show "''geometry'' \<in> set (columns g)" by simp
qed

theorem load_data_missing_geometry_witness:
  "fst (read_upload (env_geojson no_features) up_geojson w0) = Continue no_features
   \<and> rows no_features = []
   \<and> fst (load_data (env_geojson no_features) (Some up_geojson) w0) = Return None
   \<and> st_errors (snd (load_data (env_geojson no_features) (Some up_geojson) w0))
       = [NoGeometryColumn]
   \<and> fst (load_data (env_geojson monas_wgs84) (Some up_geojson) w0) = Return (Some monas_wgs84)
   \<and> rows monas_wgs84 \<noteq> [] \<and> ''geometry'' \<in> set (columns monas_wgs84)"
proof -
  have h1: "fst (read_upload (env_geojson no_features) up_geojson w0) = Continue no_features"
    by (rule read_upload_geojson)
  have h2: "rows no_features = []" by (simp add: no_features_def)
  have h3: "fst (read_upload (env_geojson monas_wgs84) up_geojson w0) = Continue monas_wgs84"
    by (rule read_upload_geojson)
  have h4: "fst (load_data (env_geojson monas_wgs84) (Some up_geojson) w0) = Return (Some monas_wgs84)"
    using h3
    by (simp add: load_data_fst_Continue normalise_def getattr_crs_def to_crs_def except_Exception_def
          gdf_empty_def monas_wgs84_def monas_def)
  have e0: "st_errors w0 = []" by (simp add: st_errors_def w0_def)
  show ?thesis
    using h1 h2 h4 e0
      load_data_missing_geometry [where env = "env_geojson no_features" and up = up_geojson
        and w = w0 and d = no_features and env' = "env_geojson monas_wgs84"
        and uploaded_file = "Some up_geojson" and w' = w0 and g = monas_wgs84]
    by simp
qed

subsection \<open>Exceptions that leave \<open>load_data\<close>\<close>

text \<open>
  C9 at a failing input. The driver reads the upload and the dataset is about to be
  returned; in the \<open>finally\<close> block \<open>os.remove\<close> raises (the scratch file cannot be
  removed). Line 127 is not guarded, unlike \<open>shutil.rmtree\<close> on line 129, which is
  called with \<open>ignore_errors=True\<close>: the exception replaces the value about to be
  returned and leaves \<open>load_data\<close>, and the scratch file is still there. With the same
  upload and a removal that works, the dataset is returned. (The lemmas
  \<open>load_data_with_Raise\<close> and \<open>load_data_with_returns\<close> above show that this is the
  only exception that can leave the call: every fault of the scratch write, the
  extraction, the driver, the geometry check and the reprojection is turned into
  \<open>None\<close> and one message.)
\<close>

theorem load_data_remove_fault_escapes:
  "fst (load_data_with locked (env_geojson monas_wgs84) (Some up_geojson) w0)
     = Raise (Exception ''[Errno 13] Permission denied'')
   \<and> fs (snd (load_data_with locked (env_geojson monas_wgs84) (Some up_geojson) w0))
        ''/tmp/tmpk3x9.geojson'' = Some (RegularFile [123, 125])
   \<and> fst (load_data_with reliable (env_geojson monas_wgs84) (Some up_geojson) w0)
     = Return (Some monas_wgs84)"
proof -
  have a: "load_data_with locked (env_geojson monas_wgs84) (Some up_geojson) w0
     = (Raise (Exception ''[Errno 13] Permission denied''),
        \<lparr>fs = [''/tmp/tmpk3x9.geojson'' \<mapsto> RegularFile [123, 125]],
          events = [Created ''/tmp/tmpk3x9.geojson'']\<rparr>)"
    by (simp add: load_data_with_def try_body_def read_upload_def write_scratch_def
          tmp_write_outcome_def suffix_of_up_geojson env_geojson_def env0_def one_file_def w0_def
          normalise_def getattr_crs_def to_crs_def gdf_empty_def monas_wgs84_def monas_def
          buffer_up_geojson except_Exception_def finally_block_def remove_tmp_def locked_def
          Let_def)
  have b: "fst (load_data_with reliable (env_geojson monas_wgs84) (Some up_geojson) w0)
     = Return (Some monas_wgs84)"
    by (simp add: load_data_with_def try_body_def read_upload_def write_scratch_def
          tmp_write_outcome_def suffix_of_up_geojson env_geojson_def env0_def one_file_def w0_def
          normalise_def getattr_crs_def to_crs_def gdf_empty_def monas_wgs84_def monas_def
          except_Exception_def finally_block_reliable Let_def)
  show ?thesis by (simp add: a b)
qed

subsection \<open>Archives\<close>

text \<open>
  C8. A ZIP upload that is written to scratch and extracted without a fault, and whose
  extracted tree holds at no depth a file whose lower-cased name ends in \<open>.shp\<close>, makes
  \<open>load_data\<close> return \<open>None\<close> and report the no-shapefile message, and nothing else.
\<close>

theorem load_data_zip_without_shp:
  assumes "suffix_of up = ''.zip''" "tmp_create env = None" "tmp_write env = None"
    "mkdtemp env = Inr d" "extractall env = (es, None)"
    and "\<not> has_shp_list es"
  shows "fst (load_data env (Some up) w) = Return None
         \<and> st_errors (snd (load_data env (Some up) w)) = st_errors w @ [ZipNoShp]"
proof -
  have "shp_files (walk d es) = []"
    using has_shp_walk(1) [of d es] assms(6) by (simp del: walk.simps)
  then have r: "fst (read_upload env up w) = Returns None"
    using read_upload_zip [OF assms(1-5), of w] by simp
  have "st_errors (snd (snd (read_upload env up w))) = st_errors w @ [ZipNoShp]"
    using read_upload_errors [of env up w] r assms(5) by simp
  with load_data_Returns [OF r] show ?thesis by simp
qed

theorem load_data_zip_without_shp_witness:
  "suffix_of up_zip = ''.zip'' \<and> \<not> has_shp_list tree_readme
   \<and> fst (load_data (env_zip tree_readme) (Some up_zip) w0) = Return None
   \<and> st_errors (snd (load_data (env_zip tree_readme) (Some up_zip) w0)) = [ZipNoShp]"
proof -
  have h: "\<not> has_shp_list tree_readme" by code_simp
  have e0: "st_errors w0 = []" by (simp add: st_errors_def w0_def)
  show ?thesis
    using h e0 suffix_of_up_zip
      load_data_zip_without_shp [OF suffix_of_up_zip env_zip_fields(1-4) h, of w0]
    by simp
qed

text \<open>
  C3, as the code has it. For a ZIP upload written and extracted without a fault, the
  \<open>.shp\<close> paths are collected in the order of the top-down walk: those among the files of
  a directory, in the order of its listing, then those of each subdirectory, in the order
  of the listing. Nothing is sorted. \<open>load_data\<close> hands the first of them to the
  shapefile driver and its result is what the driver, the geometry check and the
  reprojection make of that one file. When the extraction directory lists two
  directories and the first listed holds a \<open>.shp\<close> file, the path chosen lies in the
  first listed, whatever the two are called.
\<close>

theorem load_data_selects_first_listed:
  assumes "suffix_of up = ''.zip''" "tmp_create env = None" "tmp_write env = None"
    "mkdtemp env = Inr d" "extractall env = (es, None)"
    and "shp_files (walk d es) = p # ps"
  shows "shp_files (walk d es) =
           map (path_join d) (filter (\<lambda>file. endswith (lower file) ''.shp'') (filenames es))
           @ concat (map (\<lambda>e. case e of
                                 Dir n sub \<Rightarrow> shp_files (walk (path_join d n) sub)
                               | File n \<Rightarrow> []) es)
         \<and> fst (load_data env (Some up) w) =
             (case read_file env p (Some ''ESRI Shapefile'') of
                Inl e \<Rightarrow> Return None
              | Inr g \<Rightarrow> (case fst (normalise env g w) of
                            Return v \<Rightarrow> Return v
                          | Raise e \<Rightarrow> Return None))
         \<and> (es = [Dir a as, Dir b bs] \<and> has_shp_list as
              \<longrightarrow> p \<in> set (shp_files (walk (path_join d a) as)))"
proof (intro conjI impI)
  show "shp_files (walk d es) =
           map (path_join d) (filter (\<lambda>file. endswith (lower file) ''.shp'') (filenames es))
           @ concat (map (\<lambda>e. case e of
                                 Dir n sub \<Rightarrow> shp_files (walk (path_join d n) sub)
                               | File n \<Rightarrow> []) es)"
    by (rule shp_files_walk)
next
  have r: "fst (read_upload env up w) =
             (case read_file env p (Some ''ESRI Shapefile'') of
                Inl e \<Rightarrow> Raises e
              | Inr g \<Rightarrow> Continue g)"
    using read_upload_zip [OF assms(1-5), of w] assms(6) by simp
  show "fst (load_data env (Some up) w) =
             (case read_file env p (Some ''ESRI Shapefile'') of
                Inl e \<Rightarrow> Return None
              | Inr g \<Rightarrow> (case fst (normalise env g w) of
                            Return v \<Rightarrow> Return v
                          | Raise e \<Rightarrow> Return None))"
  proof (cases "read_file env p (Some ''ESRI Shapefile'')")
    case (Inl e)
    with r load_data_Raises [of env up w e] show ?thesis by simp
  next
    case (Inr g)
    with r have c: "fst (read_upload env up w) = Continue g" by simp
    show ?thesis
      using Inr normalise_fst_world [of env g "snd (snd (read_upload env up w))" w]
      by (simp add: load_data_fst_Continue [OF c] except_Exception_def split: outcome.splits)
  qed
next
  assume a: "es = [Dir a as, Dir b bs] \<and> has_shp_list as"
  then have ne: "shp_files (walk (path_join d a) as) \<noteq> []"
    using has_shp_walk(1) [of "path_join d a" as] by (simp del: walk.simps)
  have "shp_files (walk d es) = shp_files (walk (path_join d a) as) @ shp_files (walk (path_join d b) bs)"
    using a shp_files_walk [of d "[Dir a as, Dir b bs]"]
    by (simp add: filenames_def del: walk.simps)
  with assms(6) ne show "p \<in> set (shp_files (walk (path_join d a) as))"
    by (cases "shp_files (walk (path_join d a) as)") auto
qed

text \<open>The listing yields \<open>a\<close> before \<open>b\<close>: the bundle under \<open>a\<close> is read.\<close>

theorem load_data_selects_first_listed_witness:
  "suffix_of up_zip = ''.zip''
   \<and> shp_files (walk ''/tmp/tmpd1r0'' tree_ab)
       = [''/tmp/tmpd1r0/a/roads.shp'', ''/tmp/tmpd1r0/b/roads.shp'']
   \<and> fst (load_data (env_zip tree_ab) (Some up_zip) w0) = Return (Some roads_a)
   \<and> ''/tmp/tmpd1r0/a/roads.shp'' \<in> set (shp_files (walk (path_join ''/tmp/tmpd1r0'' ''a'') road_bundle))"
proof -
  have h: "has_shp_list road_bundle" by code_simp
  show ?thesis
    using h suffix_of_up_zip shp_files_tree_ab
      load_data_selects_first_listed [OF suffix_of_up_zip env_zip_fields(1-4) shp_files_tree_ab,
        of w0 "''a''" road_bundle "''b''" road_bundle]
    by (simp add: env_zip_fields driver_ab_def normalise_roads tree_ab_def del: walk.simps)
qed

text \<open>
  C3 as stated fails. The listing yields \<open>b\<close> before \<open>a\<close>, as a file system may: the
  bundle under \<open>b\<close> is read, although the archive holds a bundle under \<open>a\<close> that the
  driver can read.
\<close>

theorem load_data_selects_b_counterexample:
  "shp_files (walk ''/tmp/tmpd1r0'' tree_ba)
       = [''/tmp/tmpd1r0/b/roads.shp'', ''/tmp/tmpd1r0/a/roads.shp'']
   \<and> fst (load_data (env_zip tree_ba) (Some up_zip) w0) = Return (Some roads_b)
   \<and> read_file (env_zip tree_ba) ''/tmp/tmpd1r0/a/roads.shp'' (Some ''ESRI Shapefile'') = Inr roads_a
   \<and> roads_a \<noteq> roads_b"
proof -
  have r: "fst (read_upload (env_zip tree_ba) up_zip w0) = Continue roads_b"
    using read_upload_zip [OF suffix_of_up_zip env_zip_fields(1-4), of tree_ba w0]
    by (simp add: shp_files_tree_ba env_zip_fields driver_ab_def del: walk.simps)
  have l: "fst (load_data (env_zip tree_ba) (Some up_zip) w0) = Return (Some roads_b)"
    by (simp add: load_data_fst_Continue [OF r] normalise_roads except_Exception_def)
  show ?thesis
    using l by (simp add: shp_files_tree_ba env_zip_fields driver_ab_def roads_a_def roads_b_def
                  del: walk.simps)
qed

subsection \<open>Extensions outside the widget's list\<close>

text \<open>
  C6, as the code has it. \<open>load_data\<close> does not look at the extension beyond comparing
  it with \<open>.zip\<close>, and has no unsupported-format result. For every upload whose
  extension is not \<open>.zip\<close>, in the widget's list or not, when creating, writing and
  later removing the scratch file raise no fault: the first thing the call does is
  create the scratch file; it then hands that file to the driver with no driver forced.
  If the driver raises, the call returns \<open>None\<close> and reports the general load failure
  with the driver's exception. If the driver returns a frame, the call returns the
  dataset when the geometry check and the reprojection succeed, with no message;
  \<open>None\<close> and the missing-geometry message when the geometry check fails; \<open>None\<close> and
  the general load failure when the reprojection raises.
\<close>

theorem load_data_no_extension_check:
  assumes "suffix_of up \<noteq> ''.zip''" "tmp_create env = None" "tmp_write env = None"
    and "os_remove rm = None"
  shows "(\<exists>evs. events (snd (load_data_with rm env (Some up) w))
                 = events w @ Created (tmp_stem env @ suffix_of up) # evs)
         \<and> (case read_file env (tmp_stem env @ suffix_of up) None of
               Inl e \<Rightarrow>
                 fst (load_data_with rm env (Some up) w) = Return None
                 \<and> st_errors (snd (load_data_with rm env (Some up) w)) = st_errors w @ [LoadFailed e]
             | Inr g \<Rightarrow>
                 (case fst (normalise env g w) of
                    Return (Some g') \<Rightarrow>
                      fst (load_data_with rm env (Some up) w) = Return (Some g')
                      \<and> st_errors (snd (load_data_with rm env (Some up) w)) = st_errors w
                  | Return None \<Rightarrow>
                      fst (load_data_with rm env (Some up) w) = Return None
                      \<and> st_errors (snd (load_data_with rm env (Some up) w))
                          = st_errors w @ [NoGeometryColumn]
                  | Raise e \<Rightarrow>
                      fst (load_data_with rm env (Some up) w) = Return None
                      \<and> st_errors (snd (load_data_with rm env (Some up) w))
                          = st_errors w @ [LoadFailed e]))"
proof
  let ?p = "tmp_stem env @ suffix_of up"
  let ?w1 = "w\<lparr>fs := (fs w)(?p \<mapsto> RegularFile (buffer up)), events := events w @ [Created ?p]\<rparr>"
  let ?l = "\<lparr>tmp_path = Some ?p, extract_dir = None\<rparr>"
  note ru = read_upload_direct [OF assms(1-3), of w]
  obtain r w1' e1 where tb: "try_body env up w = (r, ?l, w1')"
    and e1: "events w1' = events ?w1 @ e1"
    using try_body_direct [OF assms(1-3), of w] by auto
  obtain r' w2 where x: "except_Exception r w1' = (r', w2)"
    by (cases "except_Exception r w1'") auto
  obtain e2 where e2: "events w2 = events w1' @ e2"
    using x by (auto simp: except_Exception_def split: outcome.splits)
  obtain e3 where e3: "events (snd (finally_block rm ?l w2)) = events w2 @ e3"
    using finally_block_events [of rm ?l w2] by auto
  have "snd (load_data_with rm env (Some up) w) = snd (finally_block rm ?l w2)"
    using tb x by (simp add: load_data_with_unfold [OF assms(4)])
  with e1 e2 e3
  show "\<exists>evs. events (snd (load_data_with rm env (Some up) w)) = events w @ Created ?p # evs"
    by simp
next
  let ?p = "tmp_stem env @ suffix_of up"
  let ?w1 = "w\<lparr>fs := (fs w)(?p \<mapsto> RegularFile (buffer up)), events := events w @ [Created ?p]\<rparr>"
  let ?l = "\<lparr>tmp_path = Some ?p, extract_dir = None\<rparr>"
  note ru = read_upload_direct [OF assms(1-3), of w]
  have s1: "st_errors ?w1 = st_errors w" by (rule st_errors_Created)
  show "case read_file env ?p None of
               Inl e \<Rightarrow>
                 fst (load_data_with rm env (Some up) w) = Return None
                 \<and> st_errors (snd (load_data_with rm env (Some up) w)) = st_errors w @ [LoadFailed e]
             | Inr g \<Rightarrow>
                 (case fst (normalise env g w) of
                    Return (Some g') \<Rightarrow>
                      fst (load_data_with rm env (Some up) w) = Return (Some g')
                      \<and> st_errors (snd (load_data_with rm env (Some up) w)) = st_errors w
                  | Return None \<Rightarrow>
                      fst (load_data_with rm env (Some up) w) = Return None
                      \<and> st_errors (snd (load_data_with rm env (Some up) w))
                          = st_errors w @ [NoGeometryColumn]
                  | Raise e \<Rightarrow>
                      fst (load_data_with rm env (Some up) w) = Return None
                      \<and> st_errors (snd (load_data_with rm env (Some up) w))
                          = st_errors w @ [LoadFailed e])"
  proof (cases "read_file env ?p None")
    case (Inl e)
    with ru have "try_body env up w = (Raise e, ?l, ?w1)" by (simp add: try_body_def)
    with Inl s1 show ?thesis
      by (simp add: load_data_with_unfold [OF assms(4)] except_Exception_def finally_block_errors)
         (simp add: st_errors_def)
  next
    case (Inr g)
    obtain r w2 where n: "normalise env g ?w1 = (r, w2)"
      by (cases "normalise env g ?w1") auto
    have r: "fst (normalise env g w) = r"
      using n normalise_fst_world [of env g ?w1 w] by simp
    have e2: "st_errors w2 = st_errors w @ (case r of Return None \<Rightarrow> [NoGeometryColumn] | _ \<Rightarrow> [])"
      using normalise_errors [of env g ?w1] n s1 by simp
    from ru Inr n have tb: "try_body env up w = (r, ?l, w2)" by (simp add: try_body_def)
    show ?thesis
    proof (cases r)
      case (Raise e)
      with Inr r tb e2 show ?thesis
        by (simp add: load_data_with_unfold [OF assms(4)] except_Exception_def finally_block_errors)
           (simp add: st_errors_def)
    next
      case (Return v)
      with Inr r tb e2 show ?thesis
        by (cases v)
           (simp_all add: load_data_with_unfold [OF assms(4)] except_Exception_def
              finally_block_errors)
    qed
  qed
qed

text \<open>An upload named \<open>jakarta.txt\<close> whose content the driver reads.\<close>

theorem load_data_no_extension_check_witness:
  "suffix_of up_txt \<noteq> ''.zip''
   \<and> (\<exists>evs. events (snd (load_data_with reliable env_txt (Some up_txt) w0))
               = Created ''/tmp/tmpk3x9.txt'' # evs)
   \<and> fst (load_data_with reliable env_txt (Some up_txt) w0) = Return (Some monas_wgs84)
   \<and> st_errors (snd (load_data_with reliable env_txt (Some up_txt) w0)) = []"
proof -
  have h: "suffix_of up_txt \<noteq> ''.zip''" by (simp add: suffix_of_up_txt)
  have r: "os_remove reliable = None" by (simp add: reliable_def)
  have n: "fst (normalise env_txt monas_wgs84 w0) = Return (Some monas_wgs84)"
    by (simp add: normalise_def getattr_crs_def gdf_empty_def to_crs_def monas_wgs84_def monas_def)
  have e0: "st_errors w0 = []" by (simp add: st_errors_def w0_def)
  show ?thesis
    using h n e0 load_data_no_extension_check [OF h env_txt_fields(1,2) r, of w0]
    by (simp add: env_txt_fields suffix_of_up_txt one_file_def w0_def)
qed

text \<open>
  C6 as stated fails. An upload named \<open>jakarta.txt\<close>: the scratch file is created and
  removed, and the call returns the dataset when the driver recognises the content; when
  the driver raises, the call reports the general load failure, again after creating
  the scratch file.
\<close>

theorem load_data_txt_counterexample:
  "\<not> recognized (suffix_of up_txt)
   \<and> fst (load_data env_txt (Some up_txt) w0) = Return (Some monas_wgs84)
   \<and> events (snd (load_data env_txt (Some up_txt) w0))
       = [Created ''/tmp/tmpk3x9.txt'', Removed ''/tmp/tmpk3x9.txt'']
   \<and> fst (load_data env0 (Some up_txt) w0) = Return None
   \<and> events (snd (load_data env0 (Some up_txt) w0))
       = [Created ''/tmp/tmpk3x9.txt'', StError (LoadFailed (Exception ''DriverError'')),
          Removed ''/tmp/tmpk3x9.txt'']"
  by (simp add: suffix_of_up_txt not_recognized_txt load_data_unfold try_body_def read_upload_def
        write_scratch_def tmp_write_outcome_def env_txt_def env0_def one_file_def w0_def normalise_def getattr_crs_def gdf_empty_def
        to_crs_def monas_wgs84_def monas_def except_Exception_def cleanup_unfold Let_def)

subsection \<open>Scratch storage when line 71 raises\<close>


text \<open>
  A small upload on the same full volume stays in the buffer: line 72 runs, the
  exception is raised when the file is closed, and the \<open>finally\<close> block removes the
  scratch file. The lemmas \<open>load_data_removes_scratch\<close> and
  \<open>load_data_removes_once\<close> above show the same for every call in which line 71 does
  not raise and the deletions do what they are asked.
\<close>

lemma load_data_close_fault_cleaned:
  "load_data env_full (Some up_geojson) w0
     = (Return None,
        \<lparr>fs = Map.empty,
          events = [Created ''/tmp/tmpk3x9.geojson'',
                    StError (LoadFailed (Exception ''[Errno 28] No space left on device'')),
                    Removed ''/tmp/tmpk3x9.geojson'']\<rparr>)"
  by (simp add: load_data_unfold try_body_def read_upload_def write_scratch_def
        outcome_full_small suffix_of_up_geojson env_full_fields w0_def
        except_Exception_def cleanup_unfold Let_def)

subsection \<open>The tile table of \<open>create_map\<close>\<close>

text \<open>
  C10. For every basemap string \<open>create_map\<close> returns a map. Its tile source and
  attribution are those of the table entry when the string is one of the three keys of
  \<open>TILE_MAP\<close>, and those of the OpenStreetMap entry for any other string; no lookup
  raises.
\<close>

theorem create_map_total:
  "\<exists>m w'. create_map rd gdf basemap w = (Return m, w')
      \<and> tiles m = (if basemap = ''CartoDB Positron'' then ''CartoDB Positron''
                   else if basemap = ''Stamen Terrain'' then ''Stamen Terrain''
                   else ''OpenStreetMap'')
      \<and> attr m = (if basemap = ''CartoDB Positron''
                    then CHR 0xA9 # '' OpenStreetMap contributors '' @ CHR 0xA9 # '' CartoDB''
                  else if basemap = ''Stamen Terrain''
                    then ''Map tiles by Stamen Design, under CC BY 3.0. Data ''
                         @ CHR 0xA9 # '' OpenStreetMap contributors''
                  else CHR 0xA9 # '' OpenStreetMap contributors'')"
  by (cases gdf)
     (simp_all add: create_map_def TILE_MAP_def getitem_def dict_get_def Let_def
        split: sum.splits)

theorem create_map_total_witness:
  "fst (create_map renderer0 None ''Mapbox Streets'' w0)
     = Return \<lparr>location = (- 6.2088, 106.8456), zoom_start = 10, tiles = ''OpenStreetMap'',
                attr = CHR 0xA9 # '' OpenStreetMap contributors'', layers = [LayerControl]\<rparr>"
  using create_map_total [of renderer0 None "''Mapbox Streets''" w0]
  by (simp add: create_map_def TILE_MAP_def getitem_def dict_get_def Let_def)

end
